theory Spec2Isabelle
  imports Main "HOL-Library.Word"
begin

section \<open>The TV daemon \<open>tvd.c\<close>: data model\<close>

text \<open>
  The daemon is a single loop over a handful of process-wide variables. The model keeps
  them in one record and passes it through every function. Whatever the daemon does to
  the outside world (signals, sleeps, reaps, forks, frame-buffer writes, console lines)
  is appended to \<open>trace\<close> in program order. Whatever the outside world answers (is the
  leader alive, what did \<open>find\<close> print, what did \<open>fork\<close> return, what time is it) is a
  parameter of the function that asks.

  \<open>pid_t\<close> and the \<open>long long\<close> millisecond clock are modelled as \<open>int\<close>: the code
  only compares pids with 0 and negates positive ones, and adds 320 to a monotonic
  millisecond count, so no wrap-around is reachable.
\<close>

definition STATIC_MS :: int where
  "STATIC_MS = 250"

definition STATIC_FRAMES :: nat where
  "STATIC_FRAMES = 3"

definition HOLD_MS :: int where
  "HOLD_MS = 1200"

definition DOUBLE_TAP_WINDOW_MS :: int where
  "DOUBLE_TAP_WINDOW_MS = 320"

definition SWITCH_POLL_MS :: int where
  "SWITCH_POLL_MS = 40"

datatype signal = SIGTERM | SIGKILL | SIGSTOP | SIGCONT

text \<open>
  One entry per effect on the outside world. \<open>Kill t s\<close> is \<open>kill(t, s)\<close> with the target
  as the code passes it (negative: the whole process group). The liveness probe
  \<open>kill(pid, 0)\<close> delivers nothing and is not an entry: its answer is an input.
  \<open>Waitpid p\<close> is \<open>waitpid(p, &st, WNOHANG)\<close>, so \<open>Waitpid (-1)\<close> is the reaper's call.
  \<open>ForkPlayer v r\<close> and \<open>ForkAudio r\<close> are the two \<open>fork\<close> calls with their return value,
  \<open>FbWrite r\<close> a frame of \<open>r\<close> bytes written at offset 0. \<open>FbClear\<close>, \<open>Backlight\<close>,
  \<open>SwitchInit\<close> and \<open>Log\<close> record the calls of \<open>fb_clear\<close>, \<open>backlight_on\<close> or
  \<open>backlight_off\<close>, \<open>switch_init\<close> and \<open>log_console\<close>; each of them gives up silently
  when its device cannot be opened.
\<close>

datatype effect =
    Kill int signal
  | Sleep int
  | Waitpid int
  | ForkPlayer string int
  | Setpgid int int
  | ForkAudio int
  | FbClear
  | FbWrite int
  | Backlight bool
  | SwitchInit
  | Log string

datatype tv_state_t = ST_OFF | ST_PLAYING | ST_PAUSED

record daemon =
  ffmpeg_pid :: int
  ffmpeg_paused :: bool
  pending_single :: bool
  pending_deadline_ms :: int
  state :: tv_state_t
  trace :: "effect list"

text \<open>The static initialisers of the globals.\<close>

definition init_daemon :: daemon where
  "init_daemon = \<lparr>ffmpeg_pid = -1, ffmpeg_paused = False, pending_single = False,
     pending_deadline_ms = 0, state = ST_OFF, trace = []\<rparr>"

definition emit :: "effect list \<Rightarrow> daemon \<Rightarrow> daemon" where
  "emit es d = d\<lparr>trace := trace d @ es\<rparr>"

section \<open>Playback supervisor\<close>

text \<open>
  \<open>ffmpeg_alive\<close>: \<open>ffmpeg_pid > 0 && kill(ffmpeg_pid, 0) == 0\<close>. The parameter is the
  answer of the probe, which is only asked when a pid is tracked.
\<close>

definition ffmpeg_alive :: "bool \<Rightarrow> daemon \<Rightarrow> bool" where
  "ffmpeg_alive probe d = (0 < ffmpeg_pid d \<and> probe)"

text \<open>
  The polling loop of \<open>stop_playback\<close>:
  \<open>for (i = 0; i < 25; i++) { if (!ffmpeg_alive()) break; ms_sleep(30); }\<close>.
  \<open>alive i\<close> is the answer of the probe in iteration \<open>i\<close>.
\<close>

function stop_wait :: "(nat \<Rightarrow> bool) \<Rightarrow> nat \<Rightarrow> daemon \<Rightarrow> daemon" where
  "stop_wait alive i d =
     (if i < 25 then
        (if \<not> ffmpeg_alive (alive i) d then d
         else stop_wait alive (Suc i) (emit [Sleep 30] d))
      else d)"
  by pat_completeness auto
termination
  by (relation "measure (\<lambda>(alive, i, d). 25 - i)") auto

declare stop_wait.simps [simp del]

definition stop_playback :: "(nat \<Rightarrow> bool) \<Rightarrow> daemon \<Rightarrow> daemon" where
  "stop_playback alive d =
     (if ffmpeg_pid d \<le> 0 then d
      else
        let d1 = emit [Kill (- ffmpeg_pid d) SIGTERM] d;
            d2 = stop_wait alive 0 d1;
            d3 = emit [Kill (- ffmpeg_pid d2) SIGKILL] d2;
            d4 = emit [Waitpid (ffmpeg_pid d3)] d3
        in d4\<lparr>ffmpeg_pid := -1, ffmpeg_paused := False\<rparr>)"

definition pause_ffmpeg :: "bool \<Rightarrow> daemon \<Rightarrow> daemon" where
  "pause_ffmpeg probe d =
     (if \<not> ffmpeg_alive probe d then d
      else (emit [Kill (- ffmpeg_pid d) SIGSTOP] d)\<lparr>ffmpeg_paused := True\<rparr>)"

definition resume_ffmpeg :: "bool \<Rightarrow> daemon \<Rightarrow> daemon" where
  "resume_ffmpeg probe d =
     (if \<not> ffmpeg_alive probe d then d
      else (emit [Kill (- ffmpeg_pid d) SIGCONT] d)\<lparr>ffmpeg_paused := False\<rparr>)"

text \<open>
  \<open>pick_random_video\<close>: the argument is the line \<open>fgets\<close> read from the \<open>find | awk\<close>
  pipe, \<open>None\<close> when \<open>popen\<close> failed or nothing was printed (no matching file). Trailing
  newline and carriage-return characters are cut; an empty rest is no video.
\<close>

function strip_eol :: "string \<Rightarrow> string" where
  "strip_eol line =
     (if line \<noteq> [] \<and> (last line = CHR 0x0A \<or> last line = CHR 0x0D)
      then strip_eol (butlast line) else line)"
  by pat_completeness auto
termination
  by (relation "measure length") auto

declare strip_eol.simps [simp del]

definition pick_random_video :: "string option \<Rightarrow> string option" where
  "pick_random_video out =
     (case out of
        None \<Rightarrow> None
      | Some line \<Rightarrow> (let l = strip_eol line in if l = [] then None else Some l))"

text \<open>
  What \<open>start_playback\<close> asks of the outside world: the probes of its own call of
  \<open>stop_playback\<close>, the line read from the library listing, and the return value of
  \<open>fork\<close> as the parent sees it (positive: the child's pid).
\<close>

record start_env =
  st_alive :: "nat \<Rightarrow> bool"
  find_line :: "string option"
  fork_ret :: int

definition start_playback :: "start_env \<Rightarrow> daemon \<Rightarrow> daemon" where
  "start_playback e d =
     (let d1 = stop_playback (st_alive e) d in
      case pick_random_video (find_line e) of
        None \<Rightarrow> emit [Log ''no videos found in /mnt/videos''] d1
      | Some v \<Rightarrow>
          (let d2 = emit [Log (''play: '' @ v), ForkPlayer v (fork_ret e)] d1 in
           if 0 < fork_ret e
           then (emit [Setpgid (fork_ret e) (fork_ret e)] d2)
                  \<lparr>ffmpeg_pid := fork_ret e, ffmpeg_paused := False\<rparr>
           else d2))"

section \<open>Transition effect\<close>

text \<open>
  \<open>static_noise_av\<close> asks for: the return value of the \<open>fork\<close> in
  \<open>start_static_audio\<close>, whether both \<open>/dev/urandom\<close> and the frame buffer opened,
  whether \<open>malloc\<close> gave a buffer, and the return value \<open>r\<close> of \<open>read\<close> in each
  iteration of the frame loop.
\<close>

record noise_env =
  audio_fork :: int
  devs_open :: bool
  buf_ok :: bool
  frame_read :: "nat \<Rightarrow> int"

definition start_static_audio :: "int \<Rightarrow> int" where
  "start_static_audio pid = (if 0 < pid then pid else -1)"

text \<open>
  The frame loop:
  \<open>for (i = 0; i < STATIC_FRAMES; i++) { r = read(..); if (r <= 0) break;
  lseek; write(fb, buf, r); ms_sleep(20); }\<close>.
\<close>

function static_frames :: "(nat \<Rightarrow> int) \<Rightarrow> nat \<Rightarrow> daemon \<Rightarrow> daemon" where
  "static_frames rd i d =
     (if i < STATIC_FRAMES then
        (if rd i \<le> 0 then d
         else static_frames rd (Suc i) (emit [FbWrite (rd i), Sleep 20] d))
      else d)"
  by pat_completeness auto
termination
  by (relation "measure (\<lambda>(rd, i, d). STATIC_FRAMES - i)") auto

declare static_frames.simps [simp del]

definition static_noise_av :: "noise_env \<Rightarrow> daemon \<Rightarrow> daemon" where
  "static_noise_av e d =
     (let apid = start_static_audio (audio_fork e);
          d1 = emit [ForkAudio (audio_fork e)] d;
          d2 = (if devs_open e \<and> buf_ok e then static_frames (frame_read e) 0 d1 else d1);
          d3 = emit [Sleep STATIC_MS] d2
      in if 0 < apid then emit [Waitpid apid] d3 else d3)"

section \<open>Switch\<close>

text \<open>\<open>strstr(line, needle) != NULL\<close>.\<close>

fun strstr :: "string \<Rightarrow> string \<Rightarrow> bool" where
  "strstr [] needle = (needle = [])"
| "strstr (c # cs) needle =
     (if take (length needle) (c # cs) = needle then True else strstr cs needle)"

text \<open>
  \<open>switch_is_on\<close>: the argument is the first line of \<open>raspi-gpio get 26\<close>, \<open>None\<close>
  when \<open>popen\<close> failed or \<open>fgets\<close> read nothing.
\<close>

definition switch_is_on :: "string option \<Rightarrow> bool" where
  "switch_is_on out =
     (case out of None \<Rightarrow> False | Some line \<Rightarrow> strstr line ''level=1'')"

section \<open>Tap scheduling and the power state machine\<close>

text \<open>The argument of \<open>schedule_single_tap\<close> is its reading of the monotonic clock.\<close>

definition schedule_single_tap :: "int \<Rightarrow> daemon \<Rightarrow> daemon" where
  "schedule_single_tap now d =
     d\<lparr>pending_single := True, pending_deadline_ms := now + DOUBLE_TAP_WINDOW_MS\<rparr>"

definition cancel_single_tap :: "daemon \<Rightarrow> daemon" where
  "cancel_single_tap d = d\<lparr>pending_single := False, pending_deadline_ms := 0\<rparr>"

definition do_power_off :: "(nat \<Rightarrow> bool) \<Rightarrow> daemon \<Rightarrow> daemon" where
  "do_power_off alive d =
     (let d1 = stop_playback alive d;
          d2 = emit [FbClear] d1;
          d3 = emit [Backlight False] d2;
          d4 = d3\<lparr>state := ST_OFF\<rparr>;
          d5 = cancel_single_tap d4
      in emit [Log ''power OFF''] d5)"

definition do_power_on :: "start_env \<Rightarrow> daemon \<Rightarrow> daemon" where
  "do_power_on e d =
     (let d1 = emit [Backlight True] d;
          d2 = emit [FbClear] d1;
          d3 = start_playback e d2;
          d4 = d3\<lparr>state := ST_PLAYING\<rparr>;
          d5 = cancel_single_tap d4
      in emit [Log ''power ON''] d5)"

definition do_pause_toggle :: "bool \<Rightarrow> daemon \<Rightarrow> daemon" where
  "do_pause_toggle probe d =
     (if state d = ST_PLAYING then
        emit [Log ''pause''] ((pause_ffmpeg probe d)\<lparr>state := ST_PAUSED\<rparr>)
      else if state d = ST_PAUSED then
        emit [Log ''resume''] ((resume_ffmpeg probe d)\<lparr>state := ST_PLAYING\<rparr>)
      else d)"

record next_env =
  nx_alive :: "nat \<Rightarrow> bool"
  nx_noise :: noise_env
  nx_start :: start_env

definition do_next_episode :: "next_env \<Rightarrow> daemon \<Rightarrow> daemon" where
  "do_next_episode e d =
     (if state d \<noteq> ST_PLAYING then d
      else
        let d1 = stop_playback (nx_alive e) d;
            d2 = static_noise_av (nx_noise e) d1;
            d3 = start_playback (nx_start e) d2;
            d4 = d3\<lparr>state := ST_PLAYING\<rparr>
        in emit [Log ''next''] d4)"

section \<open>Child reaper\<close>

text \<open>
  The body of the reaper's loop for one collected pid \<open>p\<close>; the environment is the one a
  restart would use.
\<close>

definition reap_one :: "int \<Rightarrow> start_env \<Rightarrow> daemon \<Rightarrow> daemon" where
  "reap_one p e d =
     (if p = ffmpeg_pid d then
        (let d1 = d\<lparr>ffmpeg_pid := -1, ffmpeg_paused := False\<rparr> in
         if state d1 \<noteq> ST_OFF then
           (if state d1 = ST_PLAYING
            then start_playback e (emit [Log ''ffmpeg died, restarting''] d1)
            else d1)
         else d1)
      else d)"

text \<open>
  \<open>while ((p = waitpid(-1, &st, WNOHANG)) > 0) ...\<close>: the list holds the return values of
  the successive calls of one reap cycle, each with the environment of a possible
  restart. The loop ends at the first value that is not positive; the end of the list
  stands for such a value.
\<close>

fun reap_children :: "(int \<times> start_env) list \<Rightarrow> daemon \<Rightarrow> daemon" where
  "reap_children [] d = emit [Waitpid (-1)] d"
| "reap_children ((p, e) # rest) d =
     (if 0 < p then reap_children rest (reap_one p e (emit [Waitpid (-1)] d))
      else emit [Waitpid (-1)] d)"

section \<open>Touch events and the main loop\<close>

record touch_state_t =
  touching :: bool
  t_down_ms :: int

definition touch_state_reset :: "touch_state_t \<Rightarrow> touch_state_t" where
  "touch_state_reset st = st\<lparr>touching := False, t_down_ms := 0\<rparr>"

text \<open>
  \<open>struct input_event\<close> of the kernel: a time stamp (here in milliseconds; the daemon
  never reads it), \<open>__u16 type\<close>, \<open>__u16 code\<close>, \<open>__s32 value\<close>. \<open>EV_KEY\<close> and
  \<open>BTN_TOUCH\<close> have the values of \<open>linux/input-event-codes.h\<close>.
\<close>

record input_event =
  ev_time_ms :: int
  ev_type :: "16 word"
  ev_code :: "16 word"
  ev_value :: "32 word"

definition EV_KEY :: "16 word" where
  "EV_KEY = 0x01"

definition BTN_TOUCH :: "16 word" where
  "BTN_TOUCH = 0x14a"

text \<open>A release of the touch button: \<open>EV_KEY\<close>, \<open>BTN_TOUCH\<close>, value 0.\<close>

definition is_release :: "input_event \<Rightarrow> bool" where
  "is_release ev = (ev_type ev = EV_KEY \<and> ev_code ev = BTN_TOUCH \<and> ev_value ev = 0)"

text \<open>
  What handling one event asks for: the clock read in the handler (\<open>t_down_ms\<close> or
  \<open>t_up\<close>), the clock read inside \<open>schedule_single_tap\<close>, and the environment of
  \<open>do_next_episode\<close>.
\<close>

record event_env =
  ee_clock :: int
  ee_sched_clock :: int
  ee_next :: next_env

text \<open>The body of the read loop of \<open>main\<close> for one event.\<close>

definition handle_event ::
  "input_event \<Rightarrow> event_env \<Rightarrow> touch_state_t \<times> daemon \<Rightarrow> touch_state_t \<times> daemon" where
  "handle_event ev e sd =
     (let st = fst sd; d = snd sd in
      if ev_type ev = EV_KEY \<and> ev_code ev = BTN_TOUCH then
        (if ev_value ev = 1 then
           (st\<lparr>touching := True, t_down_ms := ee_clock e\<rparr>, d)
         else if ev_value ev = 0 then
           (let t_up = ee_clock e;
                dt = t_up - t_down_ms st;
                d' = (if \<not> pending_single d then schedule_single_tap (ee_sched_clock e) d
                      else do_next_episode (ee_next e) (cancel_single_tap d))
            in (st\<lparr>touching := False, t_down_ms := 0\<rparr>, d'))
         else (st, d))
      else (st, d))"

text \<open>
  \<open>while (read(tfd, &ev, sizeof(ev)) == sizeof(ev)) ...\<close>: the list holds the events
  read in one tick; its end is the read that returns nothing more.
\<close>

fun drain ::
  "(input_event \<times> event_env) list \<Rightarrow> touch_state_t \<times> daemon \<Rightarrow> touch_state_t \<times> daemon" where
  "drain [] sd = sd"
| "drain ((ev, e) # rest) sd = drain rest (handle_event ev e sd)"

text \<open>Step 3 of the loop body; the clock is read only when a tap is pending.\<close>

definition expire_single_tap :: "int \<Rightarrow> bool \<Rightarrow> daemon \<Rightarrow> daemon" where
  "expire_single_tap clock probe d =
     (if pending_single d \<and> pending_deadline_ms d \<le> clock
      then do_pause_toggle probe (cancel_single_tap d) else d)"

text \<open>Step 2 of the loop body: events are read only with a touch device and not in OFF.\<close>

definition read_touch ::
  "int \<Rightarrow> (input_event \<times> event_env) list \<Rightarrow> touch_state_t \<times> daemon
     \<Rightarrow> touch_state_t \<times> daemon" where
  "read_touch fd evs sd =
     (if 0 \<le> fd \<and> state (snd sd) \<noteq> ST_OFF then drain evs sd else sd)"

record tick_env =
  tk_now :: int
  tk_reaped :: "(int \<times> start_env) list"
  tk_switch :: "string option"
  tk_off_alive :: "nat \<Rightarrow> bool"
  tk_on :: start_env
  tk_events :: "(input_event \<times> event_env) list"
  tk_expire_clock :: int
  tk_toggle_probe :: bool

record loop_state =
  tfd :: int
  ts :: touch_state_t
  last_switch_poll :: int
  dm :: daemon

text \<open>One iteration of \<open>while (!g_stop)\<close>.\<close>

definition tick :: "tick_env \<Rightarrow> loop_state \<Rightarrow> loop_state" where
  "tick e s =
     (let now = tk_now e;
          d1 = reap_children (tk_reaped e) (dm s);
          polled = (SWITCH_POLL_MS \<le> now - last_switch_poll s);
          d2 = (if polled then
                  (let cur_on = switch_is_on (tk_switch e) in
                   if \<not> cur_on \<and> state d1 \<noteq> ST_OFF then do_power_off (tk_off_alive e) d1
                   else if cur_on \<and> state d1 = ST_OFF then do_power_on (tk_on e) d1
                   else d1)
                else d1);
          sd = read_touch (tfd s) (tk_events e) (ts s, d2);
          d4 = expire_single_tap (tk_expire_clock e) (tk_toggle_probe e) (snd sd);
          d5 = emit [Sleep 10] d4
      in s\<lparr>ts := fst sd,
           last_switch_poll := (if polled then now else last_switch_poll s),
           dm := d5\<rparr>)"

text \<open>The iterations run until the stop flag is seen.\<close>

fun run_ticks :: "tick_env list \<Rightarrow> loop_state \<Rightarrow> loop_state" where
  "run_ticks [] s = s"
| "run_ticks (e # es) s = run_ticks es (tick e s)"

text \<open>
  \<open>main\<close> before the loop: the descriptor \<open>open\<close> returned for the touch device (the
  error line is logged without the \<open>strerror\<close> text), and the first reading of the
  switch.
\<close>

record boot_env =
  bt_tfd :: int
  bt_switch :: "string option"
  bt_off_alive :: "nat \<Rightarrow> bool"
  bt_on :: start_env

definition boot :: "boot_env \<Rightarrow> loop_state" where
  "boot e =
     (let d0 = emit [SwitchInit] init_daemon;
          d1 = (if bt_tfd e < 0 then emit [Log ''ERROR opening /dev/input/event0''] d0 else d0);
          d2 = (if switch_is_on (bt_switch e) then do_power_on (bt_on e) d1
                else do_power_off (bt_off_alive e) d1)
      in \<lparr>tfd = bt_tfd e, ts = \<lparr>touching = False, t_down_ms = 0\<rparr>,
          last_switch_poll = 0, dm = d2\<rparr>)"

text \<open>\<open>main\<close> as a whole: after the loop, \<open>stop_playback\<close> and \<open>fb_clear\<close>.\<close>

definition main :: "boot_env \<Rightarrow> tick_env list \<Rightarrow> (nat \<Rightarrow> bool) \<Rightarrow> daemon" where
  "main b es alive = emit [FbClear] (stop_playback alive (dm (run_ticks es (boot b))))"

section \<open>Sequences of operations\<close>

text \<open>The five operations on the daemon's variables, each with its environment.\<close>

datatype operation =
    PowerOn start_env
  | PowerOff "nat \<Rightarrow> bool"
  | PauseToggle bool
  | NextEpisode next_env
  | ChildReap "(int \<times> start_env) list"

fun apply_op :: "operation \<Rightarrow> daemon \<Rightarrow> daemon" where
  "apply_op (PowerOn e) d = do_power_on e d"
| "apply_op (PowerOff alive) d = do_power_off alive d"
| "apply_op (PauseToggle probe) d = do_pause_toggle probe d"
| "apply_op (NextEpisode e) d = do_next_episode e d"
| "apply_op (ChildReap rs) d = reap_children rs d"

fun run_ops :: "operation list \<Rightarrow> daemon \<Rightarrow> daemon" where
  "run_ops [] d = d"
| "run_ops (x # xs) d = run_ops xs (apply_op x d)"

definition tracked :: "daemon \<Rightarrow> bool" where
  "tracked d = (0 < ffmpeg_pid d)"

text \<open>The invariant of the data model: a playback process is tracked exactly when the
  power state is not OFF.\<close>

definition balanced :: "daemon \<Rightarrow> bool" where
  "balanced d = (tracked d = (state d \<noteq> ST_OFF))"

text \<open>A call of \<open>start_playback\<close> launches a player when a video is found and \<open>fork\<close>
  succeeds.\<close>

definition launches :: "start_env \<Rightarrow> bool" where
  "launches e = (pick_random_video (find_line e) \<noteq> None \<and> 0 < fork_ret e)"

text \<open>The pids one reap cycle collects: the return values before the first that is not
  positive.\<close>

definition collected :: "(int \<times> start_env) list \<Rightarrow> int list" where
  "collected rs = map fst (takeWhile (\<lambda>r. 0 < fst r) rs)"

text \<open>
  A reap cycle is \<open>supplied\<close> when, each time it collects the tracked leader, the state is
  PLAYING and the restart launches a player. The recursion follows the loop: entries that
  are not the leader ask for nothing, and nothing is asked after the value that ends the
  loop.
\<close>

fun reap_supplied :: "(int \<times> start_env) list \<Rightarrow> daemon \<Rightarrow> bool" where
  "reap_supplied [] d = True"
| "reap_supplied ((p, e) # rest) d =
     (0 < p \<longrightarrow>
        (p = ffmpeg_pid d \<longrightarrow> state d = ST_PLAYING \<and> launches e)
        \<and> reap_supplied rest (reap_one p e (emit [Waitpid (-1)] d)))"

text \<open>
  An operation is \<open>supplied\<close> in a state when every \<open>start_playback\<close> it really runs there
  launches a player and the reaper does not collect the tracked leader in state PAUSED.
  \<open>do_next_episode\<close> runs \<open>start_playback\<close> only in state PLAYING.
\<close>

fun supplied :: "daemon \<Rightarrow> operation \<Rightarrow> bool" where
  "supplied d (PowerOn e) = launches e"
| "supplied d (PowerOff alive) = True"
| "supplied d (PauseToggle probe) = True"
| "supplied d (NextEpisode e) = (state d = ST_PLAYING \<longrightarrow> launches (nx_start e))"
| "supplied d (ChildReap rs) = reap_supplied rs d"

fun supplied_run :: "daemon \<Rightarrow> operation list \<Rightarrow> bool" where
  "supplied_run d [] = True"
| "supplied_run d (x # xs) = (supplied d x \<and> supplied_run (apply_op x d) xs)"

section \<open>Closed forms used in the statements\<close>

text \<open>The number of 30 ms sleeps of the polling loop: the leading run of live probes,
  at most 25.\<close>

definition polls :: "(nat \<Rightarrow> bool) \<Rightarrow> nat" where
  "polls alive = length (takeWhile alive [0..<25])"

text \<open>The number of noise frames written: the leading run of successful reads, at most
  \<open>STATIC_FRAMES\<close>, and none when a device or the buffer is missing.\<close>

definition frames :: "noise_env \<Rightarrow> nat" where
  "frames e =
     (if devs_open e \<and> buf_ok e
      then length (takeWhile (\<lambda>i. 0 < frame_read e i) [0..<STATIC_FRAMES]) else 0)"

definition frame_effects :: "noise_env \<Rightarrow> effect list" where
  "frame_effects e = concat (map (\<lambda>i. [FbWrite (frame_read e i), Sleep 20]) [0..<frames e])"

text \<open>The console line \<open>start_playback\<close> writes.\<close>

definition start_line :: "start_env \<Rightarrow> string" where
  "start_line e =
     (case pick_random_video (find_line e) of
        None \<Rightarrow> ''no videos found in /mnt/videos''
      | Some v \<Rightarrow> ''play: '' @ v)"

text \<open>The milliseconds of sleep requested in a trace.\<close>

fun slept :: "effect list \<Rightarrow> int" where
  "slept [] = 0"
| "slept (Sleep ms # es) = ms + slept es"
| "slept (x # es) = slept es"

text \<open>The signals sent in a trace, and the lines written to the console.\<close>

fun signals :: "effect list \<Rightarrow> (int \<times> signal) list" where
  "signals [] = []"
| "signals (Kill t s # es) = (t, s) # signals es"
| "signals (x # es) = signals es"

fun console :: "effect list \<Rightarrow> string list" where
  "console [] = []"
| "console (Log l # es) = l # console es"
| "console (x # es) = console es"

section \<open>Concrete inputs\<close>

text \<open>Probe answers: the leader is alive in the first \<open>n\<close> probes and dead from then on.\<close>

definition alive_until :: "nat \<Rightarrow> nat \<Rightarrow> bool" where
  "alive_until n i = (i < n)"

text \<open>A daemon playing, and one paused, with the leader 100 tracked; the same with a
  single tap pending until 1320.\<close>

definition playing_100 :: daemon where
  "playing_100 = \<lparr>ffmpeg_pid = 100, ffmpeg_paused = False, pending_single = False,
     pending_deadline_ms = 0, state = ST_PLAYING, trace = []\<rparr>"

definition paused_100 :: daemon where
  "paused_100 = \<lparr>ffmpeg_pid = 100, ffmpeg_paused = True, pending_single = False,
     pending_deadline_ms = 0, state = ST_PAUSED, trace = []\<rparr>"

definition armed_100 :: daemon where
  "armed_100 = playing_100\<lparr>pending_single := True, pending_deadline_ms := 1320\<rparr>"

definition armed_paused_100 :: daemon where
  "armed_paused_100 = paused_100\<lparr>pending_single := True, pending_deadline_ms := 1320\<rparr>"

text \<open>A library with one file, where \<open>fork\<close> returns the given pid, and an empty one.\<close>

definition one_video :: "int \<Rightarrow> start_env" where
  "one_video pid = \<lparr>st_alive = alive_until 0,
     find_line = Some (''/mnt/videos/ep1.mp4'' @ [CHR 0x0A]), fork_ret = pid\<rparr>"

definition no_video :: start_env where
  "no_video = \<lparr>st_alive = alive_until 0, find_line = None, fork_ret = 101\<rparr>"

text \<open>Three full frames (2560 * 480 bytes each) read, the noise audio forked as 200.\<close>

definition three_frames :: noise_env where
  "three_frames = \<lparr>audio_fork = 200, devs_open = True, buf_ok = True,
     frame_read = (\<lambda>i. 1228800)\<rparr>"

definition next_101 :: next_env where
  "next_101 = \<lparr>nx_alive = alive_until 0, nx_noise = three_frames, nx_start = one_video 101\<rparr>"

text \<open>A request for the next item when the library has gone empty.\<close>

definition next_none :: next_env where
  "next_none = \<lparr>nx_alive = alive_until 0, nx_noise = three_frames, nx_start = no_video\<rparr>"

text \<open>Touch events with their kernel time stamp, read with the clock at \<open>t\<close>; a touch
  state in which no press was seen.\<close>

definition no_touch :: touch_state_t where
  "no_touch = \<lparr>touching = False, t_down_ms = 0\<rparr>"

definition press_ev :: "int \<Rightarrow> input_event" where
  "press_ev t = \<lparr>ev_time_ms = t, ev_type = EV_KEY, ev_code = BTN_TOUCH, ev_value = 1\<rparr>"

definition release_ev :: "int \<Rightarrow> input_event" where
  "release_ev t = \<lparr>ev_time_ms = t, ev_type = EV_KEY, ev_code = BTN_TOUCH, ev_value = 0\<rparr>"

definition read_at :: "int \<Rightarrow> event_env" where
  "read_at t = \<lparr>ee_clock = t, ee_sched_clock = t, ee_next = next_101\<rparr>"

text \<open>
  A run of the daemon: it boots with the touch device open and the switch on, and ticks
  every 12 ms from 940 to 1324 with the switch still on and no child to reap. Two taps
  arrive: press 945 and release 995, press 1270 and release 1321. Each event is read by
  the first tick after its time stamp.
\<close>

definition level_1 :: "string option" where
  "level_1 = Some ''GPIO 26: level=1 fsel=0 func=INPUT''"

definition boot_on :: boot_env where
  "boot_on = \<lparr>bt_tfd = 3, bt_switch = level_1, bt_off_alive = alive_until 0,
     bt_on = one_video 100\<rparr>"

definition quiet_tick :: "int \<Rightarrow> tick_env" where
  "quiet_tick t = \<lparr>tk_now = t, tk_reaped = [], tk_switch = level_1,
     tk_off_alive = alive_until 0, tk_on = one_video 100, tk_events = [],
     tk_expire_clock = t, tk_toggle_probe = True\<rparr>"

definition arrivals :: "int \<Rightarrow> input_event list" where
  "arrivals t =
     (if t = 952 then [press_ev 945]
      else if t = 1000 then [release_ev 995]
      else if t = 1276 then [press_ev 1270]
      else if t = 1324 then [release_ev 1321]
      else [])"

definition tick_at :: "int \<Rightarrow> tick_env" where
  "tick_at t = (quiet_tick t)\<lparr>tk_events := map (\<lambda>ev. (ev, read_at t)) (arrivals t)\<rparr>"

definition reads_events :: "tick_env \<Rightarrow> bool" where
  "reads_events e = (tk_events e \<noteq> [])"

definition two_slow_taps :: "tick_env list" where
  "two_slow_taps = map (\<lambda>k. tick_at (940 + 12 * int k)) [0..<33]"

text \<open>
  Sequences of operations. In the first the leader is reaped while PAUSED. In the second
  a child that is not the leader is reaped while PAUSED, playback resumes, the leader
  dies and is replaced, and the next item is requested.
\<close>

definition reap_while_paused :: "operation list" where
  "reap_while_paused =
     [PowerOn (one_video 100), PauseToggle True, ChildReap [(100, one_video 101)]]"

definition evening :: "operation list" where
  "evening =
     [PowerOn (one_video 100), PauseToggle True, ChildReap [(55, one_video 102)],
      PauseToggle True, ChildReap [(100, one_video 103)], NextEpisode next_101]"

text \<open>
  The second sequence followed by power-off. And a sequence in which no \<open>start_playback\<close>
  that runs fails, although empty libraries are around: the reaper collects a child that
  is not the leader, its loop ends at a 0, and the next item is requested while PAUSED.
\<close>

definition night :: "operation list" where
  "night = evening @ [PowerOff (alive_until 25)]"

definition stray_reap :: "operation list" where
  "stray_reap = [PowerOn (one_video 100), ChildReap [(200, no_video), (0, no_video)],
     PauseToggle True, NextEpisode next_none]"


section \<open>Basic facts\<close>

lemma emit_fields [simp]:
  "ffmpeg_pid (emit es d) = ffmpeg_pid d"
  "ffmpeg_paused (emit es d) = ffmpeg_paused d"
  "pending_single (emit es d) = pending_single d"
  "pending_deadline_ms (emit es d) = pending_deadline_ms d"
  "state (emit es d) = state d"
  "trace (emit es d) = trace d @ es"
  by (simp_all add: emit_def)

lemma emit_emit [simp]: "emit es (emit fs d) = emit (fs @ es) d"
  by (simp add: emit_def)

lemma emit_Nil [simp]: "emit [] d = d"
  by (simp add: emit_def)

lemma tracked_emit [simp]: "tracked (emit es d) = tracked d"
  by (simp add: tracked_def)

lemma console_append [simp]: "console (xs @ ys) = console xs @ console ys"
  by (induction xs rule: console.induct) simp_all

lemma signals_append [simp]: "signals (xs @ ys) = signals xs @ signals ys"
  by (induction xs rule: signals.induct) simp_all

lemma slept_append [simp]: "slept (xs @ ys) = slept xs + slept ys"
  by (induction xs rule: slept.induct) simp_all

lemma replicate_Sleep [simp]:
  "console (replicate n (Sleep ms)) = []" "signals (replicate n (Sleep ms)) = []"
  by (induction n) simp_all

lemma pick_one_video [simp]:
  "pick_random_video (find_line (one_video p)) = Some ''/mnt/videos/ep1.mp4''"
  by (simp add: one_video_def pick_random_video_def strip_eol.simps)

lemma launches_one_video [simp]: "launches (one_video p) = (0 < p)"
  by (simp add: launches_def) (simp add: one_video_def)

lemma is_release_release_ev [simp]: "is_release (release_ev t)"
  by (simp add: is_release_def release_ev_def)

section \<open>Stopping playback\<close>

lemma stop_wait_pid [simp]: "ffmpeg_pid (stop_wait alive i d) = ffmpeg_pid d"
  by (induction alive i d rule: stop_wait.induct)
     (subst stop_wait.simps, simp add: emit_def)

lemma stop_wait_trace:
  "0 < ffmpeg_pid d \<Longrightarrow> i \<le> 25 \<Longrightarrow>
   stop_wait alive i d = emit (replicate (length (takeWhile alive [i..<25])) (Sleep 30)) d"
proof (induction alive i d rule: stop_wait.induct)
  case (1 alive i d)
  show ?case
  proof (cases "i < 25")
    case False
    with "1.prems" have "i = 25" by simp
    then show ?thesis
      by (subst stop_wait.simps) (simp add: emit_def)
  next
    case lt: True
    then have upt: "[i..<25] = i # [Suc i..<25]"
      by (simp add: upt_conv_Cons)
    show ?thesis
    proof (cases "alive i")
      case False
      with lt "1.prems" upt show ?thesis
        by (subst stop_wait.simps) (simp add: emit_def ffmpeg_alive_def)
    next
      case True
      have pid': "0 < ffmpeg_pid (emit [Sleep 30] d)"
        using "1.prems" by (simp add: emit_def)
      have al: "ffmpeg_alive (alive i) d"
        using True "1.prems" by (simp add: ffmpeg_alive_def)
      have "stop_wait alive (Suc i) (emit [Sleep 30] d) =
            emit (replicate (length (takeWhile alive [Suc i..<25])) (Sleep 30))
              (emit [Sleep 30] d)"
        using "1.IH" [OF lt _ pid'] al lt by simp
      with lt al True upt show ?thesis
        by (subst stop_wait.simps) (simp add: emit_def replicate_append_same)
    qed
  qed
qed

lemma stop_wait_emit: "\<exists>es. stop_wait alive i d = emit es d"
proof (induction alive i d rule: stop_wait.induct)
  case (1 alive i d)
  show ?case
  proof (cases "i < 25 \<and> ffmpeg_alive (alive i) d")
    case True
    then obtain es where "stop_wait alive (Suc i) (emit [Sleep 30] d) = emit es (emit [Sleep 30] d)"
      using "1.IH" by blast
    with True have "stop_wait alive i d = emit ([Sleep 30] @ es) d"
      by (subst stop_wait.simps) simp
    then show ?thesis by blast
  next
    case False
    then have "stop_wait alive i d = emit [] d"
      by (subst stop_wait.simps) auto
    then show ?thesis by blast
  qed
qed

lemma stop_wait_fields [simp]:
  "ffmpeg_paused (stop_wait alive i d) = ffmpeg_paused d"
  "pending_single (stop_wait alive i d) = pending_single d"
  "pending_deadline_ms (stop_wait alive i d) = pending_deadline_ms d"
  "state (stop_wait alive i d) = state d"
  using stop_wait_emit [of alive i d] by auto

lemma stop_playback_untracked [simp]:
  "ffmpeg_pid d \<le> 0 \<Longrightarrow> stop_playback alive d = d"
  by (simp add: stop_playback_def)

lemma stop_playback_fields [simp]:
  "pending_single (stop_playback alive d) = pending_single d"
  "pending_deadline_ms (stop_playback alive d) = pending_deadline_ms d"
  "state (stop_playback alive d) = state d"
  "ffmpeg_pid (stop_playback alive d) \<le> 0"
  by (simp_all add: stop_playback_def Let_def)

lemma stop_playback_not_tracked [simp]:
  "(0 < ffmpeg_pid (stop_playback alive d)) = False"
  by (simp add: stop_playback_def Let_def)

lemma stop_playback_closed:
  assumes "0 < ffmpeg_pid d"
  shows "stop_playback alive d =
           (emit ([Kill (- ffmpeg_pid d) SIGTERM] @ replicate (polls alive) (Sleep 30)
              @ [Kill (- ffmpeg_pid d) SIGKILL, Waitpid (ffmpeg_pid d)]) d)
             \<lparr>ffmpeg_pid := -1, ffmpeg_paused := False\<rparr>"
proof -
  let ?d1 = "emit [Kill (- ffmpeg_pid d) SIGTERM] d"
  have pid1: "0 < ffmpeg_pid ?d1"
    using assms by simp
  have w: "stop_wait alive 0 ?d1 = emit (replicate (polls alive) (Sleep 30)) ?d1"
    using stop_wait_trace [OF pid1, of 0 alive] by (simp add: polls_def)
  from assms w show ?thesis
    by (simp add: stop_playback_def Let_def)
qed

lemma stop_playback_console [simp]:
  "console (trace (stop_playback alive d)) = console (trace d)"
  by (cases "0 < ffmpeg_pid d") (simp_all add: stop_playback_closed)

lemma stop_playback_signals:
  "signals (trace (stop_playback alive d)) =
     signals (trace d) @
       (if 0 < ffmpeg_pid d then [(- ffmpeg_pid d, SIGTERM), (- ffmpeg_pid d, SIGKILL)] else [])"
  by (cases "0 < ffmpeg_pid d") (simp_all add: stop_playback_closed)

text \<open>
  C2 (amended). With a process tracked, \<open>stop_playback\<close> sends SIGTERM to the group,
  sleeps 30 ms once per live probe (at most 25 times, the loop ends at the first dead
  probe), and then sends SIGKILL to the group in every case, also when the process died
  during the polling; it then reaps the leader without blocking and clears the tracked
  pid and the pause flag.
\<close>

theorem stop_playback_always_kills:
  assumes "0 < ffmpeg_pid d"
  shows "trace (stop_playback alive d) =
           trace d @ [Kill (- ffmpeg_pid d) SIGTERM]
             @ replicate (polls alive) (Sleep 30)
             @ [Kill (- ffmpeg_pid d) SIGKILL, Waitpid (ffmpeg_pid d)]
         \<and> polls alive \<le> 25
         \<and> ffmpeg_pid (stop_playback alive d) = -1
         \<and> \<not> ffmpeg_paused (stop_playback alive d)"
proof -
  have len: "polls alive \<le> 25"
    using length_takeWhile_le [of alive "[0..<25]"] by (simp add: polls_def)
  from len show ?thesis
    by (simp add: stop_playback_closed [OF assms])
qed

theorem stop_playback_always_kills_witness:
  "0 < ffmpeg_pid playing_100
   \<and> trace (stop_playback (alive_until 25) playing_100) =
       [Kill (-100) SIGTERM] @ replicate 25 (Sleep 30) @ [Kill (-100) SIGKILL, Waitpid 100]
   \<and> ffmpeg_pid (stop_playback (alive_until 25) playing_100) = -1"
proof -
  have h: "0 < ffmpeg_pid playing_100"
    by (simp add: playing_100_def)
  have p: "polls (alive_until 25) = 25"
    by code_simp
  show ?thesis
    using h stop_playback_always_kills [OF h, of "alive_until 25"] p
    by (simp add: playing_100_def)
qed

text \<open>
  C2 as stated fails: the leader is found dead at the fourth probe (after three sleeps),
  and SIGKILL is still sent to the group.
\<close>

theorem stop_playback_kill_counterexample:
  "\<not> ffmpeg_alive ((alive_until 3) 3) playing_100
   \<and> trace (stop_playback (alive_until 3) playing_100) =
       [Kill (-100) SIGTERM, Sleep 30, Sleep 30, Sleep 30, Kill (-100) SIGKILL, Waitpid 100]"
  by code_simp

section \<open>Resuming\<close>

text \<open>
  C3 (amended). \<open>resume_ffmpeg\<close> changes nothing unless a process is tracked and
  alive; when one is, it sends SIGCONT to the whole group and clears the pause flag,
  whether or not the flag was set: the flag is never read.
\<close>

theorem resume_ffmpeg_ignores_pause_flag:
  "(\<not> (0 < ffmpeg_pid d \<and> probe) \<longrightarrow> resume_ffmpeg probe d = d)
   \<and> (0 < ffmpeg_pid d \<and> probe \<longrightarrow>
        resume_ffmpeg probe d =
          d\<lparr>ffmpeg_paused := False, trace := trace d @ [Kill (- ffmpeg_pid d) SIGCONT]\<rparr>)"
  by (simp add: resume_ffmpeg_def ffmpeg_alive_def emit_def)

theorem resume_ffmpeg_ignores_pause_flag_witness:
  "resume_ffmpeg False paused_100 = paused_100
   \<and> trace (resume_ffmpeg True paused_100) = [Kill (-100) SIGCONT]
   \<and> \<not> ffmpeg_paused (resume_ffmpeg True paused_100)"
  using resume_ffmpeg_ignores_pause_flag [of paused_100 False]
    resume_ffmpeg_ignores_pause_flag [of paused_100 True]
  by (simp add: paused_100_def)

text \<open>
  C3 as stated fails: with a live process that is not frozen, SIGCONT is still sent.
\<close>

theorem resume_ffmpeg_not_frozen_counterexample:
  "ffmpeg_alive True playing_100 \<and> \<not> ffmpeg_paused playing_100
   \<and> trace (resume_ffmpeg True playing_100) = trace playing_100 @ [Kill (-100) SIGCONT]
   \<and> resume_ffmpeg True playing_100 \<noteq> playing_100"
  by (simp add: resume_ffmpeg_def ffmpeg_alive_def emit_def playing_100_def)

section \<open>Transition effect\<close>

lemma takeWhile_upt_prefix:
  "takeWhile P [i..<n] = [i..<i + length (takeWhile P [i..<n])]"
proof -
  have le: "length (takeWhile P [i..<n]) \<le> n - i"
    using length_takeWhile_le [of P "[i..<n]"] by simp
  have "takeWhile P [i..<n] = take (length (takeWhile P [i..<n])) [i..<n]"
    by (rule takeWhile_eq_take)
  also have "\<dots> = [i..<i + length (takeWhile P [i..<n])]"
  proof (cases "i \<le> n")
    case True
    with le show ?thesis by (simp add: take_upt)
  next
    case False
    then show ?thesis by simp
  qed
  finally show ?thesis .
qed

lemma static_frames_trace:
  "i \<le> STATIC_FRAMES \<Longrightarrow>
   static_frames rd i d =
     emit (concat (map (\<lambda>k. [FbWrite (rd k), Sleep 20])
       (takeWhile (\<lambda>k. 0 < rd k) [i..<STATIC_FRAMES]))) d"
proof (induction rd i d rule: static_frames.induct)
  case (1 rd i d)
  show ?case
  proof (cases "i < STATIC_FRAMES")
    case False
    with "1.prems" have "i = STATIC_FRAMES" by simp
    then show ?thesis
      by (subst static_frames.simps) simp
  next
    case lt: True
    then have upt: "[i..<STATIC_FRAMES] = i # [Suc i..<STATIC_FRAMES]"
      by (simp add: upt_conv_Cons)
    show ?thesis
    proof (cases "0 < rd i")
      case False
      with lt upt show ?thesis
        by (subst static_frames.simps) simp
    next
      case True
      have "static_frames rd (Suc i) (emit [FbWrite (rd i), Sleep 20] d) =
            emit (concat (map (\<lambda>k. [FbWrite (rd k), Sleep 20])
              (takeWhile (\<lambda>k. 0 < rd k) [Suc i..<STATIC_FRAMES])))
              (emit [FbWrite (rd i), Sleep 20] d)"
        using "1.IH" [OF lt] True lt by simp
      with lt True upt show ?thesis
        by (subst static_frames.simps) simp
    qed
  qed
qed

lemma static_frames_closed:
  "devs_open e \<Longrightarrow> buf_ok e \<Longrightarrow> static_frames (frame_read e) 0 d = emit (frame_effects e) d"
proof -
  assume a: "devs_open e" "buf_ok e"
  have "takeWhile (\<lambda>k. 0 < frame_read e k) [0..<STATIC_FRAMES] = [0..<frames e]"
    using takeWhile_upt_prefix [of "\<lambda>k. 0 < frame_read e k" 0 STATIC_FRAMES] a
    by (simp add: frames_def)
  then show ?thesis
    using static_frames_trace [of 0 "frame_read e" d]
    by (simp add: frame_effects_def)
qed

lemma slept_frames: "slept (concat (map (\<lambda>i. [FbWrite (f i), Sleep 20]) xs)) = 20 * int (length xs)"
  by (induction xs) simp_all

lemma frame_effects_quiet [simp]:
  "console (frame_effects e) = []" "signals (frame_effects e) = []"
proof -
  have "console (concat (map (\<lambda>i. [FbWrite (f i), Sleep 20]) xs)) = []"
    and "signals (concat (map (\<lambda>i. [FbWrite (f i), Sleep 20]) xs)) = []" for f xs
    by (induction xs) simp_all
  then show "console (frame_effects e) = []" "signals (frame_effects e) = []"
    by (simp_all add: frame_effects_def)
qed

lemma static_noise_av_closed:
  "static_noise_av e d =
     emit ([ForkAudio (audio_fork e)] @ frame_effects e @ [Sleep STATIC_MS]
       @ (if 0 < audio_fork e then [Waitpid (audio_fork e)] else [])) d"
proof -
  have fz: "\<not> (devs_open e \<and> buf_ok e) \<Longrightarrow> frames e = 0"
    by (auto simp: frames_def)
  have fe: "\<not> (devs_open e \<and> buf_ok e) \<Longrightarrow> frame_effects e = []"
    using fz by (simp add: frame_effects_def)
  show ?thesis
    using fe by (simp add: static_noise_av_def Let_def start_static_audio_def static_frames_closed)
qed

text \<open>
  What \<open>static_noise_av\<close> does in every environment: after the frame loop it sleeps the
  whole \<open>STATIC_MS\<close>, so the sleeps requested add up to \<open>STATIC_MS\<close> plus 20 ms per
  frame written (at most 3 frames); it then makes one non-blocking \<open>waitpid\<close> for the
  noise-audio process when that process was forked, none otherwise. The daemon's
  variables are unchanged.
\<close>

lemma static_noise_av_sleeps_whole_budget:
  "trace (static_noise_av e d) =
     trace d @ [ForkAudio (audio_fork e)] @ frame_effects e @ [Sleep STATIC_MS]
       @ (if 0 < audio_fork e then [Waitpid (audio_fork e)] else [])
   \<and> slept (trace (static_noise_av e d)) = slept (trace d) + 20 * int (frames e) + STATIC_MS
   \<and> frames e \<le> STATIC_FRAMES
   \<and> (static_noise_av e d)\<lparr>trace := trace d\<rparr> = d"
proof -
  have fr: "frames e \<le> STATIC_FRAMES"
    using length_takeWhile_le [of "\<lambda>i. 0 < frame_read e i" "[0..<STATIC_FRAMES]"]
    by (simp add: frames_def)
  have sl: "slept (frame_effects e) = 20 * int (frames e)"
    by (simp add: frame_effects_def slept_frames)
  have un: "(static_noise_av e d)\<lparr>trace := trace d\<rparr> = d"
    by (simp add: static_noise_av_closed emit_def)
  from fr sl un show ?thesis
    by (simp add: static_noise_av_closed)
qed

text \<open>
  C6, evaluated on the code. On the ordinary path of a channel change (noise audio forked,
  both devices open, three full frames read) the frame loop sleeps 3 times 20 ms and the
  sleep that follows is the whole 250 ms, not the 190 ms that remain: 310 ms are slept in
  all, against the 250 ms that the claim and the comment on \<open>STATIC_MS\<close> give as the
  total. The single reap that follows is non-blocking.
\<close>

theorem static_noise_av_three_frames_sleep_310:
  "trace (static_noise_av three_frames playing_100) =
     [ForkAudio 200, FbWrite 1228800, Sleep 20, FbWrite 1228800, Sleep 20,
      FbWrite 1228800, Sleep 20, Sleep 250, Waitpid 200]
   \<and> slept (trace (static_noise_av three_frames playing_100)) = 310
   \<and> STATIC_MS = 250"
  by code_simp

section \<open>Starting playback\<close>

lemma start_playback_fields [simp]:
  "pending_single (start_playback e d) = pending_single d"
  "pending_deadline_ms (start_playback e d) = pending_deadline_ms d"
  "state (start_playback e d) = state d"
  by (simp_all add: start_playback_def Let_def split: option.split)

lemma start_playback_tracked:
  "tracked (start_playback e d) = launches e"
  by (auto simp: start_playback_def Let_def tracked_def launches_def split: option.split)

lemma start_playback_pid:
  "launches e \<Longrightarrow> ffmpeg_pid (start_playback e d) = fork_ret e"
  by (auto simp: start_playback_def Let_def launches_def split: option.split)

lemma start_playback_paused [simp]:
  "ffmpeg_pid d \<le> 0 \<Longrightarrow> ffmpeg_paused (start_playback e d) = (ffmpeg_paused d \<and> \<not> launches e)"
  by (auto simp: start_playback_def Let_def launches_def split: option.split)

lemma start_playback_console:
  "console (trace (start_playback e d)) = console (trace d) @ [start_line e]"
  by (simp add: start_playback_def Let_def start_line_def split: option.split)

lemma start_playback_signals:
  "ffmpeg_pid d \<le> 0 \<Longrightarrow> signals (trace (start_playback e d)) = signals (trace d)"
  by (simp add: start_playback_def Let_def split: option.split)

section \<open>Power off twice\<close>

text \<open>
  C8. From any state, a second \<open>do_power_off\<close> right after a first leaves every
  variable of the daemon as the first left it: state OFF, no process tracked, no tap
  pending. It sends no signal; it only clears the frame buffer, switches the backlight
  off and logs again.
\<close>

theorem do_power_off_idempotent:
  "do_power_off a2 (do_power_off a1 d) =
     (do_power_off a1 d)\<lparr>trace := trace (do_power_off a1 d)
        @ [FbClear, Backlight False, Log ''power OFF'']\<rparr>
   \<and> state (do_power_off a1 d) = ST_OFF
   \<and> \<not> tracked (do_power_off a1 d)
   \<and> \<not> pending_single (do_power_off a1 d)
   \<and> pending_deadline_ms (do_power_off a1 d) = 0"
proof -
  let ?d = "do_power_off a1 d"
  have pid: "ffmpeg_pid ?d \<le> 0"
    by (simp add: do_power_off_def Let_def cancel_single_tap_def)
  have st: "state ?d = ST_OFF" and ps: "\<not> pending_single ?d"
    and pd: "pending_deadline_ms ?d = 0"
    by (simp_all add: do_power_off_def Let_def cancel_single_tap_def)
  have "do_power_off a2 ?d =
          ?d\<lparr>trace := trace ?d @ [FbClear, Backlight False, Log ''power OFF'']\<rparr>"
    using pid st ps pd
    by (simp add: do_power_off_def [of a2] Let_def cancel_single_tap_def emit_def)
  with pid st ps pd show ?thesis
    by (simp add: tracked_def)
qed

theorem do_power_off_idempotent_witness:
  "state (do_power_off (alive_until 0) (do_power_off (alive_until 25) paused_100)) = ST_OFF
   \<and> signals (trace (do_power_off (alive_until 0) (do_power_off (alive_until 25) paused_100)))
       = [(-100, SIGTERM), (-100, SIGKILL)]"
proof -
  have t: "signals (trace (do_power_off (alive_until 25) paused_100)) = [(-100, SIGTERM), (-100, SIGKILL)]"
    by (simp add: do_power_off_def Let_def cancel_single_tap_def stop_playback_signals
        paused_100_def)
  show ?thesis
    using do_power_off_idempotent [of "alive_until 0" "alive_until 25" paused_100] t
    by simp
qed

section \<open>Tap recognition\<close>

lemma do_next_episode_console:
  "state d = ST_PLAYING \<Longrightarrow>
   console (trace (do_next_episode e d)) = console (trace d) @ [start_line (nx_start e), ''next'']"
  by (simp add: do_next_episode_def Let_def start_playback_console static_noise_av_closed)

lemma do_next_episode_signals:
  "signals (trace (do_next_episode e d)) =
     signals (trace d) @
       (if state d = ST_PLAYING \<and> 0 < ffmpeg_pid d
        then [(- ffmpeg_pid d, SIGTERM), (- ffmpeg_pid d, SIGKILL)] else [])"
  by (simp add: do_next_episode_def Let_def start_playback_signals static_noise_av_closed
      stop_playback_signals)

lemma do_next_episode_pending [simp]:
  "pending_single (do_next_episode e d) = pending_single d"
  "pending_deadline_ms (do_next_episode e d) = pending_deadline_ms d"
  by (simp_all add: do_next_episode_def Let_def static_noise_av_closed)

lemma handle_release:
  "is_release ev \<Longrightarrow>
   handle_event ev e (st, d) =
     (st\<lparr>touching := False, t_down_ms := 0\<rparr>,
      if pending_single d then do_next_episode (ee_next e) (cancel_single_tap d)
      else schedule_single_tap (ee_sched_clock e) d)"
  by (simp add: handle_event_def is_release_def Let_def)

text \<open>
  C4. When a release is handled while a single tap is pending, the same step disarms the
  pending tap (flag and deadline) and calls \<open>do_next_episode\<close> at once. The expiry check
  that follows in the tick finds nothing pending, whatever the clock says, so no pause
  toggle fires for the pair. In state PLAYING the console shows the new item and the line
  \<open>next\<close>; the only signals sent are the SIGTERM and SIGKILL that stop the old player,
  never SIGSTOP or SIGCONT.
\<close>

theorem double_tap_cancels_single_tap:
  assumes "is_release ev" and "pending_single d"
    and "d' = snd (handle_event ev e (st, d))"
  shows "d' = do_next_episode (ee_next e) (cancel_single_tap d)
    \<and> \<not> pending_single d' \<and> pending_deadline_ms d' = 0
    \<and> expire_single_tap clock probe d' = d'
    \<and> (state d = ST_PLAYING \<longrightarrow>
         console (trace d') = console (trace d) @ [start_line (nx_start (ee_next e)), ''next''])
    \<and> signals (trace d') =
         signals (trace d) @
           (if state d = ST_PLAYING \<and> 0 < ffmpeg_pid d
            then [(- ffmpeg_pid d, SIGTERM), (- ffmpeg_pid d, SIGKILL)] else [])"
proof -
  have eq: "d' = do_next_episode (ee_next e) (cancel_single_tap d)"
    using assms by (simp add: handle_release)
  have np: "\<not> pending_single d'" and dl: "pending_deadline_ms d' = 0"
    using eq by (simp_all add: cancel_single_tap_def)
  have ex: "expire_single_tap clock probe d' = d'"
    using np by (simp add: expire_single_tap_def)
  have co: "state d = ST_PLAYING \<longrightarrow>
         console (trace d') = console (trace d) @ [start_line (nx_start (ee_next e)), ''next'']"
    using eq by (simp add: do_next_episode_console cancel_single_tap_def)
  have si: "signals (trace d') =
         signals (trace d) @
           (if state d = ST_PLAYING \<and> 0 < ffmpeg_pid d
            then [(- ffmpeg_pid d, SIGTERM), (- ffmpeg_pid d, SIGKILL)] else [])"
    using eq by (simp add: do_next_episode_signals cancel_single_tap_def)
  from eq np dl ex co si show ?thesis by blast
qed

theorem double_tap_cancels_single_tap_witness:
  "is_release (release_ev 1300) \<and> pending_single armed_100
   \<and> \<not> pending_single (snd (handle_event (release_ev 1300) (read_at 1305) (no_touch, armed_100)))
   \<and> console (trace (snd (handle_event (release_ev 1300) (read_at 1305) (no_touch, armed_100))))
       = [''play: /mnt/videos/ep1.mp4'', ''next'']
   \<and> signals (trace (snd (handle_event (release_ev 1300) (read_at 1305) (no_touch, armed_100))))
       = [(-100, SIGTERM), (-100, SIGKILL)]"
proof -
  have h1: "is_release (release_ev 1300)" by simp
  have h2: "pending_single armed_100"
    by (simp add: armed_100_def)
  have l: "start_line (nx_start (ee_next (read_at 1305))) = ''play: /mnt/videos/ep1.mp4''"
    by (simp add: read_at_def next_101_def start_line_def)
  have d: "state armed_100 = ST_PLAYING" "ffmpeg_pid armed_100 = 100" "trace armed_100 = []"
    by (simp_all add: armed_100_def playing_100_def)
  note t = double_tap_cancels_single_tap [OF h1 h2 refl, of "read_at 1305" no_touch 0 True]
  show ?thesis
    using t [THEN conjunct2] h1 h2 l d by simp
qed

text \<open>
  C9. With a touch device and a state other than OFF, a release that is read alone is
  handled whatever the touch state holds (also when no press was ever seen): it arms a
  single tap with the deadline 320 ms after the clock reading when none is pending, and
  otherwise disarms the pending one and calls \<open>do_next_episode\<close>. The daemon that
  results does not depend on the \<open>touching\<close> flag or the press time stamp.
\<close>

theorem release_without_press_is_tap:
  assumes "is_release ev" and "0 \<le> fd" and "state d \<noteq> ST_OFF"
  shows "read_touch fd [(ev, e)] (st, d) =
           (st\<lparr>touching := False, t_down_ms := 0\<rparr>,
            if pending_single d then do_next_episode (ee_next e) (cancel_single_tap d)
            else d\<lparr>pending_single := True,
                   pending_deadline_ms := ee_sched_clock e + DOUBLE_TAP_WINDOW_MS\<rparr>)
         \<and> snd (read_touch fd [(ev, e)] (st, d)) = snd (read_touch fd [(ev, e)] (st', d))"
  using assms by (simp add: read_touch_def handle_release schedule_single_tap_def)

theorem release_without_press_is_tap_witness:
  "is_release (release_ev 1000) \<and> (0::int) \<le> 3 \<and> state playing_100 \<noteq> ST_OFF
   \<and> \<not> touching no_touch
   \<and> read_touch 3 [(release_ev 1000, read_at 1002)] (no_touch, playing_100) =
       (no_touch, playing_100\<lparr>pending_single := True, pending_deadline_ms := 1322\<rparr>)"
proof -
  have h1: "is_release (release_ev 1000)" by simp
  have h2: "(0::int) \<le> 3" by simp
  have h3: "state playing_100 \<noteq> ST_OFF"
    by (simp add: playing_100_def)
  have p: "\<not> pending_single playing_100"
    by (simp add: playing_100_def)
  show ?thesis
    using release_without_press_is_tap [OF h1 h2 h3, of "read_at 1002" no_touch no_touch] h1 h3 p
    by (simp add: no_touch_def read_at_def DOUBLE_TAP_WINDOW_MS_def)
qed

text \<open>
  C10. In state PAUSED, a release handled while a single tap is pending only disarms the
  pending tap: \<open>do_next_episode\<close> returns at once, the trace, the tracked pid and the
  pause flag are unchanged, the state stays PAUSED, and the expiry check that follows
  fires nothing.
\<close>

theorem double_tap_while_paused_does_nothing:
  assumes "is_release ev" and "state d = ST_PAUSED" and "pending_single d"
  shows "snd (handle_event ev e (st, d)) = cancel_single_tap d
    \<and> expire_single_tap clock probe (cancel_single_tap d) = cancel_single_tap d
    \<and> state (cancel_single_tap d) = ST_PAUSED
    \<and> trace (cancel_single_tap d) = trace d
    \<and> ffmpeg_pid (cancel_single_tap d) = ffmpeg_pid d
    \<and> ffmpeg_paused (cancel_single_tap d) = ffmpeg_paused d"
  using assms
  by (simp add: handle_release do_next_episode_def expire_single_tap_def cancel_single_tap_def)

theorem double_tap_while_paused_does_nothing_witness:
  "is_release (release_ev 1300) \<and> state armed_paused_100 = ST_PAUSED
   \<and> pending_single armed_paused_100
   \<and> snd (handle_event (release_ev 1300) (read_at 1305) (no_touch, armed_paused_100))
       = paused_100"
proof -
  have h1: "is_release (release_ev 1300)" by simp
  have h2: "state armed_paused_100 = ST_PAUSED"
    by (simp add: armed_paused_100_def paused_100_def)
  have h3: "pending_single armed_paused_100"
    by (simp add: armed_paused_100_def)
  have c: "cancel_single_tap armed_paused_100 = paused_100"
    by (simp add: cancel_single_tap_def armed_paused_100_def paused_100_def)
  show ?thesis
    using double_tap_while_paused_does_nothing [OF h1 h2 h3, of "read_at 1305" no_touch 0 True]
      h1 h2 h3 c
    by simp
qed

section \<open>Two taps more than a window apart\<close>

text \<open>
  C5, evaluated on the code. The daemon boots with the switch on and one video, and
  ticks every 12 ms. A first release (time stamp 995) is read in the tick at 1000 and arms
  the deadline 1320. The tick at 1312 sees no expiry. A second release, time stamp 1321
  (326 ms after the first, more than the 320 ms window), is read in the tick at 1324,
  before that tick's expiry check: the single tap is still pending, so the pair is taken
  for a double tap. The console shows \<open>next\<close> and neither \<open>pause\<close> nor \<open>resume\<close>.
\<close>

theorem two_slow_taps_change_channel:
  "map ev_time_ms (filter is_release (concat (map (map fst \<circ> tk_events) two_slow_taps)))
     = [995, 1321]
   \<and> map tk_now (filter reads_events two_slow_taps) = [952, 1000, 1276, 1324]
   \<and> console (trace (dm (run_ticks two_slow_taps (boot boot_on)))) =
       [''play: /mnt/videos/ep1.mp4'', ''power ON'', ''play: /mnt/videos/ep1.mp4'', ''next'']
   \<and> signals (trace (dm (run_ticks two_slow_taps (boot boot_on)))) =
       [(-100, SIGTERM), (-100, SIGKILL)]"
  by code_simp

section \<open>Reaping the leader\<close>

text \<open>
  C7 (amended). When the reaper collects the tracked leader, the loop body runs before
  the next \<open>waitpid\<close> of the same cycle. In state PLAYING it clears the tracked pid and
  the pause flag and calls \<open>start_playback\<close> on the cleared variables: a new process is
  tracked exactly when that call launches one (a video is found and \<open>fork\<close> succeeds),
  its pid is the one \<open>fork\<close> returned, and no signal is sent. In state PAUSED nothing
  is restarted: the state stays PAUSED, the tracked pid is -1 and the pause flag is clear.
\<close>

theorem reap_leader_restarts_only_when_playing:
  assumes "0 < p" and "p = ffmpeg_pid d"
  shows "reap_children ((p, e) # rest) d =
           reap_children rest (reap_one p e (emit [Waitpid (-1)] d))
    \<and> (state d = ST_PLAYING \<longrightarrow>
          reap_one p e d =
            start_playback e (emit [Log ''ffmpeg died, restarting'']
              (d\<lparr>ffmpeg_pid := -1, ffmpeg_paused := False\<rparr>))
          \<and> tracked (reap_one p e d) = launches e
          \<and> (launches e \<longrightarrow> ffmpeg_pid (reap_one p e d) = fork_ret e)
          \<and> \<not> ffmpeg_paused (reap_one p e d)
          \<and> state (reap_one p e d) = ST_PLAYING
          \<and> signals (trace (reap_one p e d)) = signals (trace d))
    \<and> (state d = ST_PAUSED \<longrightarrow>
          reap_one p e d = d\<lparr>ffmpeg_pid := -1, ffmpeg_paused := False\<rparr>)"
  using assms
  by (simp add: reap_one_def Let_def start_playback_tracked start_playback_pid
      start_playback_signals)

theorem reap_leader_restarts_only_when_playing_witness:
  "(0::int) < 100 \<and> 100 = ffmpeg_pid playing_100 \<and> 100 = ffmpeg_pid paused_100
   \<and> state playing_100 = ST_PLAYING \<and> state paused_100 = ST_PAUSED
   \<and> ffmpeg_pid (reap_one 100 (one_video 101) playing_100) = 101
   \<and> tracked (reap_one 100 no_video playing_100) = False
   \<and> reap_one 100 (one_video 101) paused_100
       = paused_100\<lparr>ffmpeg_pid := -1, ffmpeg_paused := False\<rparr>"
proof -
  have h1: "(0::int) < 100" by simp
  have h2: "100 = ffmpeg_pid playing_100" and h3: "100 = ffmpeg_pid paused_100"
    by (simp_all add: playing_100_def paused_100_def)
  have s: "state playing_100 = ST_PLAYING" "state paused_100 = ST_PAUSED"
    by (simp_all add: playing_100_def paused_100_def)
  have n: "launches no_video = False"
    by (simp add: launches_def no_video_def pick_random_video_def)
  have f: "fork_ret (one_video 101) = 101"
    by (simp add: one_video_def)
  have l: "launches (one_video 101)" by simp
  note t1 = reap_leader_restarts_only_when_playing [OF h1 h2, of "one_video 101" "[]"]
  note t2 = reap_leader_restarts_only_when_playing [OF h1 h2, of no_video "[]"]
  note t3 = reap_leader_restarts_only_when_playing [OF h1 h3, of "one_video 101" "[]"]
  from t1 s(1) l f have a: "ffmpeg_pid (reap_one 100 (one_video 101) playing_100) = 101"
    by metis
  from t2 s(1) n have b: "tracked (reap_one 100 no_video playing_100) = False"
    by metis
  from t3 s(2) have c: "reap_one 100 (one_video 101) paused_100
       = paused_100\<lparr>ffmpeg_pid := -1, ffmpeg_paused := False\<rparr>"
    by blast
  from h1 h2 h3 s a b c show ?thesis by blast
qed

text \<open>
  C7 as stated fails where it says that a new process is tracked: when the leader is
  reaped in state PLAYING and the library is empty, \<open>start_playback\<close> is called and
  launches nothing, so the cycle ends in state PLAYING with no process tracked.
\<close>

theorem reap_leader_empty_library_counterexample:
  "state playing_100 = ST_PLAYING \<and> ffmpeg_pid playing_100 = 100
   \<and> state (reap_children [(100, no_video)] playing_100) = ST_PLAYING
   \<and> \<not> tracked (reap_children [(100, no_video)] playing_100)"
  by code_simp

section \<open>Tracking and the power state over sequences of operations\<close>

lemma reap_one_state [simp]: "state (reap_one p e d) = state d"
  by (simp add: reap_one_def Let_def)

lemma reap_children_state [simp]: "state (reap_children rs d) = state d"
  by (induction rs arbitrary: d) auto

lemma reap_one_off:
  "state d = ST_OFF \<longrightarrow> \<not> tracked d \<Longrightarrow>
   state (reap_one p e d) = ST_OFF \<longrightarrow> \<not> tracked (reap_one p e d)"
  by (simp add: reap_one_def Let_def tracked_def)

lemma reap_children_off:
  "state d = ST_OFF \<longrightarrow> \<not> tracked d \<Longrightarrow>
   state (reap_children rs d) = ST_OFF \<longrightarrow> \<not> tracked (reap_children rs d)"
proof (induction rs arbitrary: d)
  case Nil
  then show ?case by simp
next
  case (Cons r rs)
  obtain p e where r: "r = (p, e)" by (cases r)
  show ?case
  proof (cases "0 < p")
    case True
    have "state (emit [Waitpid (-1)] d) = ST_OFF \<longrightarrow> \<not> tracked (emit [Waitpid (-1)] d)"
      using Cons.prems by simp
    then have "state (reap_one p e (emit [Waitpid (-1)] d)) = ST_OFF \<longrightarrow>
               \<not> tracked (reap_one p e (emit [Waitpid (-1)] d))"
      by (rule reap_one_off)
    then show ?thesis
      using Cons.IH True r by simp
  next
    case False
    with Cons.prems r show ?thesis by simp
  qed
qed

lemma apply_op_off:
  "state d = ST_OFF \<longrightarrow> \<not> tracked d \<Longrightarrow>
   state (apply_op x d) = ST_OFF \<longrightarrow> \<not> tracked (apply_op x d)"
proof (cases x)
  case (PowerOn e)
  then show ?thesis
    by (simp add: do_power_on_def Let_def cancel_single_tap_def)
next
  case (PowerOff alive)
  then show ?thesis
    by (simp add: do_power_off_def Let_def cancel_single_tap_def tracked_def)
next
  case (PauseToggle probe)
  assume "state d = ST_OFF \<longrightarrow> \<not> tracked d"
  with PauseToggle show ?thesis
    by (simp add: do_pause_toggle_def)
next
  case (NextEpisode e)
  assume "state d = ST_OFF \<longrightarrow> \<not> tracked d"
  with NextEpisode show ?thesis
    by (simp add: do_next_episode_def Let_def)
next
  case (ChildReap rs)
  assume "state d = ST_OFF \<longrightarrow> \<not> tracked d"
  with ChildReap show ?thesis
    using reap_children_off [of d rs] by simp
qed

lemma run_ops_off:
  "state d = ST_OFF \<longrightarrow> \<not> tracked d \<Longrightarrow>
   state (run_ops xs d) = ST_OFF \<longrightarrow> \<not> tracked (run_ops xs d)"
proof (induction xs arbitrary: d)
  case Nil
  then show ?case by simp
next
  case (Cons x xs)
  from Cons.prems have "state (apply_op x d) = ST_OFF \<longrightarrow> \<not> tracked (apply_op x d)"
    by (rule apply_op_off)
  then show ?case
    using Cons.IH by simp
qed

lemma reap_children_untracked:
  "\<not> tracked d \<Longrightarrow> \<not> tracked (reap_children rs d)"
proof (induction rs arbitrary: d)
  case Nil
  then show ?case by simp
next
  case (Cons r rs)
  obtain p e where r: "r = (p, e)" by (cases r)
  show ?case
  proof (cases "0 < p")
    case False
    with Cons.prems r show ?thesis by simp
  next
    case True
    with Cons.prems have "reap_one p e (emit [Waitpid (-1)] d) = emit [Waitpid (-1)] d"
      by (auto simp: reap_one_def tracked_def)
    with Cons.IH [of "emit [Waitpid (-1)] d"] Cons.prems True r show ?thesis
      by simp
  qed
qed

lemma unbalanced_reap:
  "\<not> tracked d \<Longrightarrow> state d \<noteq> ST_OFF \<Longrightarrow> \<not> balanced (reap_children rs d)"
  using reap_children_untracked [of d rs] by (simp add: balanced_def)

lemma reap_children_exact:
  "balanced d \<Longrightarrow> balanced (reap_children rs d) = reap_supplied rs d"
proof (induction rs arbitrary: d)
  case Nil
  then show ?case by (simp add: balanced_def)
next
  case (Cons r rs)
  obtain p e where r: "r = (p, e)" by (cases r)
  let ?d0 = "emit [Waitpid (-1)] d"
  have b0: "balanced ?d0"
    using Cons.prems by (simp add: balanced_def)
  show ?case
  proof (cases "0 < p")
    case False
    with b0 r show ?thesis by simp
  next
    case pos: True
    show ?thesis
    proof (cases "p = ffmpeg_pid d")
      case False
      then have "reap_one p e ?d0 = ?d0"
        by (simp add: reap_one_def)
      with Cons.IH [OF b0] pos False r show ?thesis by simp
    next
      case leader: True
      with pos have tr: "tracked ?d0" by (simp add: tracked_def)
      with b0 have on: "state d \<noteq> ST_OFF" by (simp add: balanced_def)
      show ?thesis
      proof (cases "state d = ST_PLAYING \<and> launches e")
        case True
        then have "balanced (reap_one p e ?d0)"
          using leader by (simp add: reap_one_def Let_def balanced_def start_playback_tracked)
        from Cons.IH [OF this] pos leader True r show ?thesis by simp
      next
        case False
        have un: "\<not> tracked (reap_one p e ?d0)"
          using leader on False
          by (cases "state d")
             (simp_all add: reap_one_def Let_def start_playback_tracked, simp_all add: tracked_def)
        have "state (reap_one p e ?d0) \<noteq> ST_OFF"
          using on by simp
        with un have "\<not> balanced (reap_children rs (reap_one p e ?d0))"
          by (rule unbalanced_reap)
        with pos leader False r show ?thesis by auto
      qed
    qed
  qed
qed

lemma apply_op_exact:
  assumes "balanced d"
  shows "balanced (apply_op x d) = supplied d x"
proof (cases x)
  case (PowerOn e)
  then show ?thesis
    by (simp add: do_power_on_def Let_def cancel_single_tap_def balanced_def tracked_def
        start_playback_tracked [unfolded tracked_def])
next
  case (PowerOff alive)
  then show ?thesis
    by (simp add: do_power_off_def Let_def cancel_single_tap_def balanced_def tracked_def)
next
  case (PauseToggle probe)
  with assms show ?thesis
    by (cases "state d")
       (simp_all add: do_pause_toggle_def pause_ffmpeg_def resume_ffmpeg_def balanced_def
          tracked_def)
next
  case (NextEpisode e)
  with assms show ?thesis
    by (simp add: do_next_episode_def Let_def balanced_def tracked_def
        start_playback_tracked [unfolded tracked_def])
next
  case (ChildReap rs)
  with assms show ?thesis
    by (simp add: reap_children_exact)
qed

lemma run_ops_exact:
  "balanced d \<Longrightarrow>
   (\<forall>k\<le>length xs. balanced (run_ops (take k xs) d)) = supplied_run d xs"
proof (induction xs arbitrary: d)
  case Nil
  then show ?case by simp
next
  case (Cons x xs)
  have split: "(\<forall>k\<le>length (x # xs). balanced (run_ops (take k (x # xs)) d)) =
        (balanced d \<and> (\<forall>k\<le>length xs. balanced (run_ops (take k xs) (apply_op x d))))"
  proof
    assume a: "\<forall>k\<le>length (x # xs). balanced (run_ops (take k (x # xs)) d)"
    have "balanced (run_ops (take (Suc k) (x # xs)) d)" if "k \<le> length xs" for k
      using a that by (metis Suc_le_mono length_Cons)
    then show "balanced d \<and> (\<forall>k\<le>length xs. balanced (run_ops (take k xs) (apply_op x d)))"
      using Cons.prems by simp
  next
    assume b: "balanced d \<and> (\<forall>k\<le>length xs. balanced (run_ops (take k xs) (apply_op x d)))"
    show "\<forall>k\<le>length (x # xs). balanced (run_ops (take k (x # xs)) d)"
    proof (intro allI impI)
      fix k
      assume "k \<le> length (x # xs)"
      then show "balanced (run_ops (take k (x # xs)) d)"
        using b by (cases k) simp_all
    qed
  qed
  show ?case
  proof (cases "supplied d x")
    case True
    with Cons.prems have "balanced (apply_op x d)"
      by (simp add: apply_op_exact)
    from Cons.IH [OF this] split Cons.prems True show ?thesis by simp
  next
    case False
    with Cons.prems have "\<not> balanced (apply_op x d)"
      by (simp add: apply_op_exact)
    then have "\<not> (\<forall>k\<le>length xs. balanced (run_ops (take k xs) (apply_op x d)))"
      by (metis le0 run_ops.simps(1) take_0)
    with split False show ?thesis by simp
  qed
qed

lemma reap_leader_paused:
  "state d = ST_PAUSED \<Longrightarrow> ffmpeg_pid d \<in> set (collected rs) \<Longrightarrow> 0 < ffmpeg_pid d \<Longrightarrow>
   \<not> tracked (reap_children rs d)"
proof (induction rs arbitrary: d)
  case Nil
  then show ?case by (simp add: collected_def)
next
  case (Cons r rs)
  obtain p e where r: "r = (p, e)" by (cases r)
  let ?d0 = "emit [Waitpid (-1)] d"
  from Cons.prems(2) r have pos: "0 < p"
    by (auto simp: collected_def split: if_splits)
  show ?case
  proof (cases "p = ffmpeg_pid d")
    case True
    with Cons.prems(1) have "\<not> tracked (reap_one p e ?d0)"
      by (simp add: reap_one_def Let_def tracked_def)
    then have "\<not> tracked (reap_children rs (reap_one p e ?d0))"
      by (rule reap_children_untracked)
    with pos r show ?thesis by simp
  next
    case False
    then have same: "reap_one p e ?d0 = ?d0"
      by (simp add: reap_one_def)
    from Cons.prems(2) False r pos have "ffmpeg_pid ?d0 \<in> set (collected rs)"
      by (auto simp: collected_def)
    with Cons.IH [of ?d0] Cons.prems(1,3) have "\<not> tracked (reap_children rs ?d0)"
      by simp
    with same pos r show ?thesis by simp
  qed
qed

lemma reap_leader_no_launch:
  assumes "state d = ST_PLAYING" and "0 < ffmpeg_pid d" and "\<not> launches e"
  shows "\<not> tracked (reap_children ((ffmpeg_pid d, e) # rest) d)"
proof -
  have "\<not> tracked (reap_one (ffmpeg_pid d) e (emit [Waitpid (-1)] d))"
    using assms by (simp add: reap_one_def Let_def start_playback_tracked)
  then have "\<not> tracked (reap_children rest (reap_one (ffmpeg_pid d) e (emit [Waitpid (-1)] d)))"
    by (rule reap_children_untracked)
  with assms(2) show ?thesis by simp
qed

lemma reap_skip:
  "\<forall>r\<in>set pre. 0 < fst r \<and> fst r \<noteq> ffmpeg_pid d \<Longrightarrow>
   reap_children (pre @ rs) d =
     reap_children rs (emit (replicate (length pre) (Waitpid (-1))) d)"
proof (induction pre arbitrary: d)
  case Nil
  then show ?case by simp
next
  case (Cons r pre)
  obtain p e where r: "r = (p, e)" by (cases r)
  let ?d0 = "emit [Waitpid (-1)] d"
  from Cons.prems r have pos: "0 < p" and ne: "p \<noteq> ffmpeg_pid d"
    by simp_all
  from ne have same: "reap_one p e ?d0 = ?d0"
    by (simp add: reap_one_def)
  have "\<forall>r\<in>set pre. 0 < fst r \<and> fst r \<noteq> ffmpeg_pid ?d0"
    using Cons.prems by simp
  from Cons.IH [OF this] same pos r show ?case
    by (simp add: replicate_append_same)
qed

lemma reap_leader_no_launch_any:
  assumes "state d = ST_PLAYING" and "0 < ffmpeg_pid d" and "\<not> launches e"
    and "\<forall>r\<in>set pre. 0 < fst r \<and> fst r \<noteq> ffmpeg_pid d"
  shows "\<not> tracked (reap_children (pre @ (ffmpeg_pid d, e) # rest) d)"
proof -
  let ?d = "emit (replicate (length pre) (Waitpid (-1))) d"
  have "\<not> tracked (reap_children ((ffmpeg_pid ?d, e) # rest) ?d)"
    using assms(1-3) by (intro reap_leader_no_launch) simp_all
  then show ?thesis
    using reap_skip [OF assms(4), of "(ffmpeg_pid d, e) # rest"] by simp
qed

text \<open>
  C1 (amended). For every sequence of operations (power-on, power-off, pause toggle,
  next-episode, child reap) run from the initial state: after each completed operation,
  if the power state is OFF then no playback process is tracked. The equivalence "a
  process is tracked exactly when the state is not OFF" holds after every operation of
  the sequence if and only if every \<open>start_playback\<close> the sequence really runs launches
  a player (a video is found and \<open>fork\<close> succeeds) and the reaper never collects the
  tracked leader in state PAUSED. Whenever \<open>start_playback\<close> launches nothing, at
  power-on from any state, at next-episode in state PLAYING or when the reaper collects
  the leader in state PLAYING, the state is PLAYING with no process tracked; and whenever
  the tracked leader is among the pids a reap cycle collects in state PAUSED, the state
  stays PAUSED with no process tracked.
\<close>

theorem off_means_untracked:
  "(state (run_ops ops init_daemon) = ST_OFF \<longrightarrow> \<not> tracked (run_ops ops init_daemon))
   \<and> ((\<forall>k\<le>length ops. balanced (run_ops (take k ops) init_daemon))
        = supplied_run init_daemon ops)
   \<and> (\<not> launches e1 \<longrightarrow>
        state (do_power_on e1 d1) = ST_PLAYING \<and> \<not> tracked (do_power_on e1 d1))
   \<and> (state d2 = ST_PLAYING \<and> \<not> launches (nx_start e2) \<longrightarrow>
        state (do_next_episode e2 d2) = ST_PLAYING \<and> \<not> tracked (do_next_episode e2 d2))
   \<and> (state d3 = ST_PLAYING \<and> 0 < ffmpeg_pid d3 \<and> \<not> launches e3
        \<and> (\<forall>r\<in>set pre. 0 < fst r \<and> fst r \<noteq> ffmpeg_pid d3) \<longrightarrow>
        state (reap_children (pre @ (ffmpeg_pid d3, e3) # rest) d3) = ST_PLAYING
        \<and> \<not> tracked (reap_children (pre @ (ffmpeg_pid d3, e3) # rest) d3))
   \<and> (state d4 = ST_PAUSED \<and> 0 < ffmpeg_pid d4 \<and> ffmpeg_pid d4 \<in> set (collected rs) \<longrightarrow>
        state (reap_children rs d4) = ST_PAUSED \<and> \<not> tracked (reap_children rs d4))"
proof -
  have i1: "state init_daemon = ST_OFF \<longrightarrow> \<not> tracked init_daemon"
    by (simp add: init_daemon_def tracked_def)
  have i2: "balanced init_daemon"
    by (simp add: init_daemon_def tracked_def balanced_def)
  have a: "state (run_ops ops init_daemon) = ST_OFF \<longrightarrow> \<not> tracked (run_ops ops init_daemon)"
    by (rule run_ops_off [OF i1])
  have b: "(\<forall>k\<le>length ops. balanced (run_ops (take k ops) init_daemon))
        = supplied_run init_daemon ops"
    by (rule run_ops_exact [OF i2])
  have c: "\<not> launches e1 \<longrightarrow>
        state (do_power_on e1 d1) = ST_PLAYING \<and> \<not> tracked (do_power_on e1 d1)"
    by (simp add: do_power_on_def Let_def cancel_single_tap_def tracked_def
        start_playback_tracked [unfolded tracked_def])
  have d: "state d2 = ST_PLAYING \<and> \<not> launches (nx_start e2) \<longrightarrow>
        state (do_next_episode e2 d2) = ST_PLAYING \<and> \<not> tracked (do_next_episode e2 d2)"
    by (simp add: do_next_episode_def Let_def tracked_def
        start_playback_tracked [unfolded tracked_def])
  have e: "state d3 = ST_PLAYING \<and> 0 < ffmpeg_pid d3 \<and> \<not> launches e3
        \<and> (\<forall>r\<in>set pre. 0 < fst r \<and> fst r \<noteq> ffmpeg_pid d3) \<longrightarrow>
        state (reap_children (pre @ (ffmpeg_pid d3, e3) # rest) d3) = ST_PLAYING
        \<and> \<not> tracked (reap_children (pre @ (ffmpeg_pid d3, e3) # rest) d3)"
    using reap_leader_no_launch_any [of d3 e3 pre rest]
      reap_children_state [of "pre @ (ffmpeg_pid d3, e3) # rest" d3]
    by metis
  have f: "state d4 = ST_PAUSED \<and> 0 < ffmpeg_pid d4 \<and> ffmpeg_pid d4 \<in> set (collected rs) \<longrightarrow>
        state (reap_children rs d4) = ST_PAUSED \<and> \<not> tracked (reap_children rs d4)"
    using reap_leader_paused [of d4 rs] reap_children_state [of rs d4]
    by metis
  from a b c d e f show ?thesis by blast
qed


theorem off_means_untracked_witness:
  "state (run_ops night init_daemon) = ST_OFF \<and> \<not> tracked (run_ops night init_daemon)
   \<and> supplied_run init_daemon night
   \<and> balanced (run_ops (take 3 night) init_daemon)
   \<and> supplied_run init_daemon stray_reap
   \<and> balanced (run_ops stray_reap init_daemon)
   \<and> \<not> supplied_run init_daemon reap_while_paused
   \<and> \<not> launches no_video
   \<and> \<not> tracked (do_power_on no_video init_daemon)
   \<and> state playing_100 = ST_PLAYING \<and> 0 < ffmpeg_pid playing_100
   \<and> \<not> tracked (do_next_episode next_none playing_100)
   \<and> (0::int) < 55 \<and> 55 \<noteq> ffmpeg_pid playing_100
   \<and> \<not> tracked (reap_children
          ([(55, one_video 102)] @ (ffmpeg_pid playing_100, no_video) # [(101, one_video 102)])
          playing_100)
   \<and> state paused_100 = ST_PAUSED \<and> 0 < ffmpeg_pid paused_100
   \<and> ffmpeg_pid paused_100 \<in> set (collected [(55, one_video 102), (100, one_video 101)])
   \<and> \<not> tracked (reap_children [(55, one_video 102), (100, one_video 101)] paused_100)"
proof -
  note t = off_means_untracked [where ops = night and ?e1.0 = no_video and ?d1.0 = init_daemon
      and ?d2.0 = playing_100 and ?e2.0 = next_none and ?d3.0 = playing_100 and ?e3.0 = no_video
      and pre = "[(55, one_video 102)]" and rest = "[(101, one_video 102)]"
      and ?d4.0 = paused_100
      and rs = "[(55, one_video 102), (100, one_video 101)]"]
  note u = off_means_untracked [where ops = stray_reap, THEN conjunct2, THEN conjunct1]
  note v = off_means_untracked [where ops = reap_while_paused, THEN conjunct2, THEN conjunct1]
  have off: "state (run_ops night init_daemon) = ST_OFF"
    by code_simp
  have sn: "supplied_run init_daemon night"
    by code_simp
  have ss: "supplied_run init_daemon stray_reap"
    by code_simp
  have k3: "(3::nat) \<le> length night" and ks: "length stray_reap \<le> length stray_reap"
    by (simp_all add: night_def evening_def)
  have ts: "take (length stray_reap) stray_reap = stray_reap"
    by simp
  have nb: "\<not> balanced (run_ops (take 3 reap_while_paused) init_daemon)"
    by code_simp
  have k3': "(3::nat) \<le> length reap_while_paused"
    by (simp add: reap_while_paused_def)
  have nl: "\<not> launches no_video" "\<not> launches (nx_start next_none)"
    by (simp_all add: launches_def no_video_def next_none_def pick_random_video_def)
  have pl: "state playing_100 = ST_PLAYING" "0 < ffmpeg_pid playing_100"
    by (simp_all add: playing_100_def)
  have pa: "state paused_100 = ST_PAUSED" "0 < ffmpeg_pid paused_100"
    by (simp_all add: paused_100_def)
  have co: "ffmpeg_pid paused_100 \<in> set (collected [(55, one_video 102), (100, one_video 101)])"
    by (simp add: paused_100_def collected_def)
  from t off have a: "\<not> tracked (run_ops night init_daemon)"
    by blast
  from t sn k3 have b: "balanced (run_ops (take 3 night) init_daemon)"
    by blast
  from u ss ks ts have c: "balanced (run_ops stray_reap init_daemon)"
    by metis
  from v nb k3' have d: "\<not> supplied_run init_daemon reap_while_paused"
    by blast
  from t nl(1) have e: "\<not> tracked (do_power_on no_video init_daemon)"
    by blast
  from t pl nl(2) have f: "\<not> tracked (do_next_episode next_none playing_100)"
    by blast
  have pr: "\<forall>r\<in>set [(55, one_video 102)]. 0 < fst r \<and> fst r \<noteq> ffmpeg_pid playing_100"
    by (simp add: playing_100_def)
  from t pl nl(1) pr have g:
    "\<not> tracked (reap_children
          ([(55, one_video 102)] @ (ffmpeg_pid playing_100, no_video) # [(101, one_video 102)])
          playing_100)"
    by blast
  from t pa co have h:
    "\<not> tracked (reap_children [(55, one_video 102), (100, one_video 101)] paused_100)"
    by blast
  have pr': "(0::int) < 55" "55 \<noteq> ffmpeg_pid playing_100"
    by (simp_all add: playing_100_def)
  from off a sn b ss c d nl(1) e pl f pr' g pa co h show ?thesis
    by blast
qed

text \<open>
  C1 as stated fails. Power-on with an empty library sets the state to PLAYING with no
  process tracked; and when the leader is reaped in state PAUSED, the state stays PAUSED
  with no process tracked.
\<close>

theorem untracked_while_on_counterexample:
  "state (run_ops [PowerOn no_video] init_daemon) = ST_PLAYING
   \<and> \<not> tracked (run_ops [PowerOn no_video] init_daemon)
   \<and> state (run_ops reap_while_paused init_daemon) = ST_PAUSED
   \<and> \<not> tracked (run_ops reap_while_paused init_daemon)"
  by code_simp

end
